theory Spec2Isabelle
  imports Complex_Main "HOL-Library.Word"
begin

section \<open>Text helpers of the transcript filters\<close>

text \<open>
  A Python \<open>str\<close> is modelled as a \<open>string\<close> whose characters are the code points
  below 256. \<open>is_space\<close> is \<open>str.isspace\<close> on that range: the characters that
  \<open>str.strip()\<close> removes and at which \<open>str.split()\<close> cuts.
\<close>

definition is_space :: "char \<Rightarrow> bool" where
  "is_space c = (c \<in> set [CHR 0x09, CHR 0x0A, CHR 0x0B, CHR 0x0C, CHR 0x0D,
                          CHR 0x1C, CHR 0x1D, CHR 0x1E, CHR 0x1F, CHR 0x20,
                          CHR 0x85, CHR 0xA0])"

definition lstrip :: "string \<Rightarrow> string" where
  "lstrip s = dropWhile is_space s"

definition rstrip :: "string \<Rightarrow> string" where
  "rstrip s = rev (dropWhile is_space (rev s))"

text \<open>\<open>str.strip()\<close>: leading and trailing whitespace removed.\<close>

definition strip :: "string \<Rightarrow> string" where
  "strip s = rstrip (lstrip s)"

text \<open>\<open>str.lower()\<close> on code points below 256: A-Z and the Latin-1 capitals.\<close>

definition lower_char :: "char \<Rightarrow> char" where
  "lower_char c =
     (let n = (of_char c :: nat)
      in if (65 \<le> n \<and> n \<le> 90) \<or> (192 \<le> n \<and> n \<le> 222 \<and> n \<noteq> 215)
         then char_of (n + 32) else c)"

definition lower :: "string \<Rightarrow> string" where
  "lower s = map lower_char s"

text \<open>
  \<open>str.split()\<close> without arguments: the maximal runs of non-whitespace characters.
  \<open>split_acc\<close> carries the word being read, in reverse.
\<close>

fun split_acc :: "string \<Rightarrow> string \<Rightarrow> string list" where
  "split_acc w [] = (if w = [] then [] else [rev w])"
| "split_acc w (c # cs) =
     (if is_space c then (if w = [] then split_acc [] cs else rev w # split_acc [] cs)
      else split_acc (c # w) cs)"

definition split_ws :: "string \<Rightarrow> string list" where
  "split_ws s = split_acc [] s"

section \<open>Transcript acceptance filters\<close>

text \<open>
  Lines 194-229 of \<open>capture_speech_with_unified_vad\<close>: the filter applied to the text
  that \<open>get_final_text\<close> returned. \<open>None\<close> is the Python \<open>None\<close>.
\<close>

definition accept_timed :: "string \<Rightarrow> string option" where
  "accept_timed raw =
     (if raw \<noteq> [] then
        (let final_transcript = strip raw in
         if final_transcript = [] then None
         else if strip (lower final_transcript) = ''the'' then None
         else
           (let num_words = length (split_ws final_transcript);
                min_chars_single = 2;
                min_words_overall = 1;
                min_transcript_length = 2
            in if num_words = 0 \<or> length final_transcript < min_transcript_length then None
               else if num_words < min_words_overall then None
               else if num_words = 1 \<and> length final_transcript < min_chars_single then None
               else Some final_transcript))
      else None)"

text \<open>Lines 300-311 of \<open>capture_speech_push_to_talk\<close>.\<close>

definition accept_push_to_talk :: "string \<Rightarrow> string option" where
  "accept_push_to_talk raw =
     (if raw \<noteq> [] then
        (let final_transcript = strip raw in
         if strip (lower final_transcript) = ''the'' then None
         else if final_transcript \<noteq> [] then Some final_transcript
         else None)
      else None)"

section \<open>Audio frames, energy and smoothing\<close>

text \<open>
  Times and energies are Python floats in the source; they are modelled as exact reals,
  so rounding of float arithmetic is outside the model.
\<close>

type_synonym byte = "8 word"

datatype exn = KeyError string | ZeroDivisionError | Raised string

text \<open>
  \<open>np.frombuffer(pcm_bytes, dtype=np.int16)\<close> on a little-endian machine: two bytes
  make one sample, read as a two's-complement 16-bit integer. It is only reached with
  \<open>len(pcm_bytes) = frame_length * 2\<close>, an even length.
\<close>

fun int16_samples :: "byte list \<Rightarrow> int list" where
  "int16_samples (lo # hi # bs) =
     (let u = uint lo + 256 * uint hi
      in (if u \<ge> 32768 then u - 65536 else u) # int16_samples bs)"
| "int16_samples _ = []"

text \<open>Lines 130-132: root mean square of the samples divided by 32768.\<close>

definition frame_energy :: "byte list \<Rightarrow> real" where
  "frame_energy pcm_bytes =
     (let frame_data = map (\<lambda>s. real_of_int s / 32768) (int16_samples pcm_bytes)
      in if length frame_data > 0
         then sqrt (sum_list (map (\<lambda>x. x\<^sup>2) frame_data) / real (length frame_data))
         else 0)"

definition frame_history_length :: nat where
  "frame_history_length = 20"

text \<open>Lines 135-137: append, then drop the oldest reading when over capacity.\<close>

definition push_history :: "real list \<Rightarrow> real \<Rightarrow> real list" where
  "push_history frame_history current_energy =
     (let h = frame_history @ [current_energy]
      in if length h > frame_history_length then tl h else h)"

text \<open>Line 138.\<close>

definition avg_energy_of :: "real list \<Rightarrow> real" where
  "avg_energy_of frame_history =
     (if frame_history \<noteq> [] then sum_list frame_history / real (length frame_history) else 0)"

section \<open>Configuration\<close>

record vad_params =
  energy_threshold :: real
  continued_threshold :: real
  silence_duration :: real
  min_speech_duration :: real
  speech_buffer_time :: real
  max_recording_time :: real

text \<open>\<open>dict.get(key, default)\<close>.\<close>

definition dict_get :: "(string \<rightharpoonup> real) \<Rightarrow> string \<Rightarrow> real \<Rightarrow> real" where
  "dict_get d k dflt = (case d k of Some v \<Rightarrow> v | None \<Rightarrow> dflt)"

text \<open>Lines 71-76. \<open>vad_config['energy_threshold']\<close> raises \<open>KeyError\<close> on a missing key.\<close>

definition extract_parameters :: "(string \<rightharpoonup> real) \<Rightarrow> exn + vad_params" where
  "extract_parameters vad_config =
     (case vad_config ''energy_threshold'' of
        None \<Rightarrow> Inl (KeyError ''energy_threshold'')
      | Some et \<Rightarrow>
          Inr \<lparr> energy_threshold = et,
                continued_threshold = dict_get vad_config ''continued_threshold'' (et * 0.6),
                silence_duration = dict_get vad_config ''silence_duration'' 3.0,
                min_speech_duration = dict_get vad_config ''min_speech_duration'' 0.4,
                speech_buffer_time = dict_get vad_config ''speech_buffer_time'' 1.0,
                max_recording_time = dict_get vad_config ''max_recording_time'' 45.0 \<rparr>)"

text \<open>Line 80.\<close>

definition initial_timeout_of :: "bool \<Rightarrow> real" where
  "initial_timeout_of is_follow_up = (if is_follow_up then 4.0 else 8.0)"

text \<open>Python's \<open>int(x)\<close> on a float: truncation toward zero.\<close>

definition py_int :: "real \<Rightarrow> int" where
  "py_int x = (if x \<ge> 0 then \<lfloor>x\<rfloor> else \<lceil>x\<rceil>)"

text \<open>
  Lines 93-94. \<open>sample_rate\<close> and \<open>frame_length\<close> are integer properties of the audio
  manager; the true division raises \<open>ZeroDivisionError\<close> when \<open>frame_length\<close> is 0.
\<close>

definition silence_frames_needed_of :: "real \<Rightarrow> int \<Rightarrow> int \<Rightarrow> exn + int" where
  "silence_frames_needed_of silence_dur sample_rate frame_length =
     (if frame_length = 0 then Inl ZeroDivisionError
      else (let frames_per_second = real_of_int sample_rate / real_of_int frame_length
            in Inr (py_int (silence_dur * frames_per_second))))"

section \<open>The capture loops\<close>

text \<open>
  The collaborators (audio manager, recognizer, keyboard, clock) are outside the source.
  What they answer in one pass of the \<open>while True\<close> loop is the input \<open>tick\<close>: the clock
  reading, the result of \<open>_check_manual_vad_stop\<close>, what \<open>transcriber.reset()\<close> does if it
  is called, the result of \<open>read_audio_frame\<close> and the result of \<open>process_frame\<close>. A raise
  is \<open>Inl\<close> (or \<open>Some\<close> for \<open>reset\<close>). What the code calls is recorded as a list of actions.
\<close>

record tick =
  current_time :: real
  manual_stop :: "exn + bool"
  reset_raises :: "exn option"
  pcm_read :: "exn + byte list option"
  vosk_result :: "exn + (bool \<times> real option \<times> string)"

datatype action =
    UpdateDisplay string string
  | InitializeInput
  | StartListening
  | StopListening
  | Reset
  | ProcessFrame "byte list"
  | GetFinalText
  | Sleep real

text \<open>The exits of the timed loop, named as in the design's state machine.\<close>

datatype end_reason =
    SilenceTimeout
  | RecognizerFinal
  | MaxDuration
  | InitialTimeout
  | ManualStopWithSpeech
  | ManualStopWithoutSpeech

text \<open>
  One pass of a loop either goes on with a new state (\<open>continue\<close> or the end of the
  body), leaves the loop (\<open>break\<close>), returns \<open>None\<close> from inside the loop, or raises.
\<close>

datatype ('s, 'r) outcome =
    Continue 's
  | Break 'r
  | ReturnNone 'r
  | Raise exn

record session =
  overall_start_time :: real
  speech_start_time :: real
  voice_started :: bool
  silence_frames_count :: int
  frame_history :: "real list"
  last_partial_print_time :: "real option"

record loop_env =
  params :: vad_params
  initial_timeout :: real
  silence_frames_needed :: int
  frame_length :: int

text \<open>Lines 145-151: which partial text is worth showing.\<close>

definition current_partial_of :: "real option \<Rightarrow> string \<Rightarrow> string option" where
  "current_partial_of confidence_score partial_text_vosk =
     (if partial_text_vosk \<noteq> [] \<and> length (strip partial_text_vosk) > 0 then
        (if (case confidence_score of None \<Rightarrow> True | Some c \<Rightarrow> c > 0.3)
            \<or> length (split_ws partial_text_vosk) \<ge> 2
         then Some (strip partial_text_vosk) else None)
      else None)"

text \<open>Lines 185-188 (and 288-291): the attribute \<open>last_partial_print_time\<close>.\<close>

definition note_partial :: "real \<Rightarrow> bool \<Rightarrow> real option \<Rightarrow> real option" where
  "note_partial now show_it last_time =
     (if show_it then
        (case last_time of
           None \<Rightarrow> Some now
         | Some l \<Rightarrow> if now - l > 0.5 then Some now else last_time)
      else last_time)"

text \<open>Lines 141-156: the recognizer's answer, a raise of \<open>process_frame\<close> being caught.\<close>

definition read_vosk :: "exn + (bool \<times> real option \<times> string) \<Rightarrow> bool \<times> string option" where
  "read_vosk r =
     (case r of
        Inl vosk_error \<Rightarrow> (False, None)
      | Inr (is_final_vosk, confidence_score, partial_text_vosk) \<Rightarrow>
          (is_final_vosk, current_partial_of confidence_score partial_text_vosk))"

text \<open>Lines 158-188: the state machine on one valid frame, after the recognizer call.\<close>

definition vad_state_machine ::
  "loop_env \<Rightarrow> session \<Rightarrow> real \<Rightarrow> real \<Rightarrow> bool \<Rightarrow> string option \<Rightarrow>
     (session, end_reason) outcome \<times> action list" where
  "vad_state_machine E st now avg_energy is_final_vosk current_partial =
     (let shown = (\<lambda>s. s\<lparr>last_partial_print_time :=
                     note_partial now (current_partial \<noteq> None) (last_partial_print_time s)\<rparr>)
      in
      if \<not> voice_started st then
        (if avg_energy > energy_threshold (params E)
         then (Continue (shown (st\<lparr>voice_started := True, speech_start_time := now,
                                    silence_frames_count := 0\<rparr>)), [])
         else (Continue (shown st), []))
      else
        (let st1 = (if avg_energy > continued_threshold (params E)
                    then st\<lparr>silence_frames_count := 0\<rparr>
                    else st\<lparr>silence_frames_count := silence_frames_count st + 1\<rparr>);
             speech_duration = now - speech_start_time st1
         in if silence_frames_count st1 \<ge> silence_frames_needed E
               \<and> speech_duration \<ge> min_speech_duration (params E)
            then (Break SilenceTimeout, [Sleep (speech_buffer_time (params E))])
            else if is_final_vosk \<and> speech_duration \<ge> min_speech_duration (params E)
            then (Break RecognizerFinal, [])
            else (Continue (shown st1), [])))"

text \<open>Lines 99-188: one pass of the timed loop.\<close>

definition vad_step ::
  "loop_env \<Rightarrow> session \<Rightarrow> tick \<Rightarrow> (session, end_reason) outcome \<times> action list" where
  "vad_step E st tk =
     (let now = current_time tk in
      case manual_stop tk of
        Inl e \<Rightarrow> (Raise e, [])
      | Inr True \<Rightarrow>
          (if voice_started st \<and> (now - speech_start_time st) > min_speech_duration (params E)
           then (Break ManualStopWithSpeech, [Sleep (speech_buffer_time (params E))])
           else (case reset_raises tk of
                   Some e \<Rightarrow> (Raise e, [Reset])
                 | None \<Rightarrow> (Break ManualStopWithoutSpeech, [Reset])))
      | Inr False \<Rightarrow>
          (if \<not> voice_started st \<and> (now - overall_start_time st > initial_timeout E)
           then (ReturnNone InitialTimeout, [])
           else if voice_started st \<and> (now - speech_start_time st > max_recording_time (params E))
           then (Break MaxDuration, [])
           else
             (case pcm_read tk of
                Inl e \<Rightarrow> (Raise e, [])
              | Inr None \<Rightarrow> (Continue st, [Sleep 0.005])
              | Inr (Some pcm_bytes) \<Rightarrow>
                  (if pcm_bytes = [] then (Continue st, [Sleep 0.005])
                   else if int (length pcm_bytes) \<noteq> frame_length E * 2 then (Continue st, [])
                   else
                     (let current_energy = frame_energy pcm_bytes;
                          st1 = st\<lparr>frame_history := push_history (frame_history st) current_energy\<rparr>;
                          avg_energy = avg_energy_of (frame_history st1);
                          (is_final_vosk, current_partial) = read_vosk (vosk_result tk);
                          (oc, acts) = vad_state_machine E st1 now avg_energy is_final_vosk current_partial
                      in (oc, ProcessFrame pcm_bytes # acts))))))"

text \<open>
  The \<open>while True\<close> loop over the passes observed. \<open>Continue\<close> as the result of the loop
  says that the observations ended with the loop still running.
\<close>

fun vad_loop ::
  "loop_env \<Rightarrow> session \<Rightarrow> tick list \<Rightarrow> (session, end_reason) outcome \<times> action list" where
  "vad_loop E st [] = (Continue st, [])"
| "vad_loop E st (tk # tks) =
     (case vad_step E st tk of
        (Continue st', acts) \<Rightarrow> (let (oc, rest) = vad_loop E st' tks in (oc, acts @ rest))
      | (oc, acts) \<Rightarrow> (oc, acts))"

text \<open>Lines 264-294: one pass of the push-to-talk loop.\<close>

record ptt_session =
  start_time :: real
  ptt_last_partial_print_time :: "real option"

datatype ptt_reason = PttManualStop | PttMaxTime

definition ptt_max_recording_time :: real where
  "ptt_max_recording_time = 60.0"

definition ptt_step ::
  "ptt_session \<Rightarrow> tick \<Rightarrow> (ptt_session, ptt_reason) outcome \<times> action list" where
  "ptt_step st tk =
     (let now = current_time tk in
      case manual_stop tk of
        Inl e \<Rightarrow> (Raise e, [])
      | Inr True \<Rightarrow> (Break PttManualStop, [])
      | Inr False \<Rightarrow>
          (if now - start_time st > ptt_max_recording_time then (Break PttMaxTime, [])
           else
             (case pcm_read tk of
                Inl e \<Rightarrow> (Raise e, [])
              | Inr None \<Rightarrow> (Continue st, [Sleep 0.005])
              | Inr (Some pcm_bytes) \<Rightarrow>
                  (if pcm_bytes = [] then (Continue st, [Sleep 0.005])
                   else
                     (case vosk_result tk of
                        Inl vosk_error \<Rightarrow> (Continue st, [ProcessFrame pcm_bytes])
                      | Inr (is_final_vosk, confidence_score, partial_text_vosk) \<Rightarrow>
                          (Continue (st\<lparr>ptt_last_partial_print_time :=
                               note_partial now
                                 (partial_text_vosk \<noteq> [] \<and> length (strip partial_text_vosk) > 0)
                                 (ptt_last_partial_print_time st)\<rparr>),
                           [ProcessFrame pcm_bytes]))))))"

fun ptt_loop ::
  "ptt_session \<Rightarrow> tick list \<Rightarrow> (ptt_session, ptt_reason) outcome \<times> action list" where
  "ptt_loop st [] = (Continue st, [])"
| "ptt_loop st (tk # tks) =
     (case ptt_step st tk of
        (Continue st', acts) \<Rightarrow> (let (oc, rest) = ptt_loop st' tks in (oc, acts @ rest))
      | (oc, acts) \<Rightarrow> (oc, acts))"

section \<open>The two capture calls\<close>

text \<open>
  What one call meets: whether the speech backend is ready, whether \<open>start_listening\<close>
  gave a stream, the settings dictionary, the audio manager's \<open>sample_rate\<close> and
  \<open>frame_length\<close>, what the \<open>transcriber.reset()\<close> before the loop does, the clock at the
  start, the passes of the loop, and the answer of \<open>get_final_text\<close>. The calls to the
  display manager and to the audio manager are taken to return normally, and no
  cancellation is modelled.
\<close>

record scenario =
  speech_enabled :: bool
  audio_stream :: bool
  vad_config :: "string \<rightharpoonup> real"
  sample_rate :: int
  audio_frame_length :: int
  start_reset_raises :: "exn option"
  start_clock :: real
  ticks :: "tick list"
  final_text :: "exn + string"

text \<open>The environment and the first session state that a timed capture builds (lines 71-95).\<close>

definition timed_env :: "vad_params \<Rightarrow> bool \<Rightarrow> int \<Rightarrow> int \<Rightarrow> loop_env" where
  "timed_env p is_follow_up n fl =
     \<lparr> params = p, initial_timeout = initial_timeout_of is_follow_up,
       silence_frames_needed = n, frame_length = fl \<rparr>"

definition initial_session :: "real \<Rightarrow> session" where
  "initial_session t0 =
     \<lparr> overall_start_time = t0, speech_start_time = 0, voice_started = False,
       silence_frames_count = 0, frame_history = [], last_partial_print_time = None \<rparr>"

text \<open>The first state of a push-to-talk capture (lines 259-261).\<close>

definition ptt_initial_session :: "real \<Rightarrow> ptt_session" where
  "ptt_initial_session t0 = \<lparr> start_time = t0, ptt_last_partial_print_time = None \<rparr>"

text \<open>
  How a call ends: it returns an optional transcript, an exception leaves it, or the
  observations ended with the loop still running.
\<close>

datatype call_result = Returns "string option" | Escapes exn | StillRunning

text \<open>
  \<open>capture_speech_with_unified_vad\<close>. Everything from the \<open>try\<close> on line 97 runs under
  \<open>except Exception: return None\<close> and \<open>finally: stop_listening()\<close>; the lines before it
  do not.
\<close>

definition capture_speech_with_unified_vad :: "scenario \<Rightarrow> bool \<Rightarrow> call_result \<times> action list" where
  "capture_speech_with_unified_vad sc is_follow_up =
     (if \<not> speech_enabled sc then (Returns None, [UpdateDisplay ''error'' ''confused''])
      else
        (let a0 = [UpdateDisplay ''listening'' (if \<not> is_follow_up then ''curious'' else ''attentive''),
                   InitializeInput, StartListening]
         in if \<not> audio_stream sc then (Returns None, a0)
            else
              (case extract_parameters (vad_config sc) of
                 Inl e \<Rightarrow> (Escapes e, a0)
               | Inr p \<Rightarrow>
                   (case start_reset_raises sc of
                      Some e \<Rightarrow> (Escapes e, a0 @ [Reset])
                    | None \<Rightarrow>
                        (case silence_frames_needed_of (silence_duration p) (sample_rate sc)
                                (audio_frame_length sc) of
                           Inl e \<Rightarrow> (Escapes e, a0 @ [Reset])
                         | Inr n \<Rightarrow>
                             (let E = timed_env p is_follow_up n (audio_frame_length sc);
                                  st0 = initial_session (start_clock sc);
                                  (oc, acts) = vad_loop E st0 (ticks sc);
                                  a1 = a0 @ [Reset] @ acts
                              in case oc of
                                   Continue st \<Rightarrow> (StillRunning, a1)
                                 | ReturnNone r \<Rightarrow> (Returns None, a1 @ [StopListening])
                                 | Raise e \<Rightarrow> (Returns None, a1 @ [StopListening])
                                 | Break r \<Rightarrow>
                                     (case final_text sc of
                                        Inl e \<Rightarrow> (Returns None, a1 @ [GetFinalText, StopListening])
                                      | Inr final_transcript \<Rightarrow>
                                          (Returns (accept_timed final_transcript),
                                           a1 @ [GetFinalText, StopListening]))))))))"

text \<open>\<open>capture_speech_push_to_talk\<close>, with the \<open>try\<close> on line 263.\<close>

definition capture_speech_push_to_talk :: "scenario \<Rightarrow> call_result \<times> action list" where
  "capture_speech_push_to_talk sc =
     (if \<not> speech_enabled sc then (Returns None, [UpdateDisplay ''error'' ''confused''])
      else
        (let a0 = [UpdateDisplay ''listening'' ''attentive'', InitializeInput, StartListening]
         in if \<not> audio_stream sc then (Returns None, a0)
            else
              (case start_reset_raises sc of
                 Some e \<Rightarrow> (Escapes e, a0 @ [Reset])
               | None \<Rightarrow>
                   (let st0 = ptt_initial_session (start_clock sc);
                        (oc, acts) = ptt_loop st0 (ticks sc);
                        a1 = a0 @ [Reset] @ acts
                    in case oc of
                         Continue st \<Rightarrow> (StillRunning, a1)
                       | ReturnNone r \<Rightarrow> (Returns None, a1 @ [StopListening])
                       | Raise e \<Rightarrow> (Returns None, a1 @ [StopListening])
                       | Break r \<Rightarrow>
                           (case final_text sc of
                              Inl e \<Rightarrow> (Returns None, a1 @ [GetFinalText, StopListening])
                            | Inr final_transcript \<Rightarrow>
                                (Returns (accept_push_to_talk final_transcript),
                                 a1 @ [GetFinalText, StopListening]))))))"

section \<open>Runs of the timed loop\<close>

text \<open>
  The smoothed average that the state machine is given in one pass, when the pass reads a
  frame of the configured size (lines 119-138); \<open>None\<close> when no such frame is read.
\<close>

definition smoothed_of :: "loop_env \<Rightarrow> session \<Rightarrow> tick \<Rightarrow> real option" where
  "smoothed_of E st tk =
     (case pcm_read tk of
        Inr (Some pcm_bytes) \<Rightarrow>
          (if pcm_bytes \<noteq> [] \<and> int (length pcm_bytes) = frame_length E * 2
           then Some (avg_energy_of (push_history (frame_history st) (frame_energy pcm_bytes)))
           else None)
      | _ \<Rightarrow> None)"

text \<open>The passes that \<open>vad_loop\<close> makes, each with the session state it starts from.\<close>

fun vad_visits :: "loop_env \<Rightarrow> session \<Rightarrow> tick list \<Rightarrow> (session \<times> tick) list" where
  "vad_visits E st [] = []"
| "vad_visits E st (tk # tks) =
     (st, tk) # (case vad_step E st tk of
                   (Continue st', acts) \<Rightarrow> vad_visits E st' tks
                 | (oc, acts) \<Rightarrow> [])"

text \<open>The two timeout checks of lines 110 and 114.\<close>

definition timed_out :: "loop_env \<Rightarrow> session \<Rightarrow> tick \<Rightarrow> bool" where
  "timed_out E st tk =
     (if voice_started st
      then current_time tk - speech_start_time st > max_recording_time (params E)
      else current_time tk - overall_start_time st > initial_timeout E)"

text \<open>
  A pass in which no manual stop is seen, reading the frame does not raise, and the
  smoothed average, if there is one, does not exceed \<open>energy_threshold\<close>.
\<close>

definition quiet_pass :: "loop_env \<Rightarrow> session \<times> tick \<Rightarrow> bool" where
  "quiet_pass E v =
     (manual_stop (snd v) = Inr False
      \<and> (case pcm_read (snd v) of Inl e \<Rightarrow> False | Inr f \<Rightarrow> True)
      \<and> (case smoothed_of E (fst v) (snd v) of
            Some a \<Rightarrow> a \<le> energy_threshold (params E)
          | None \<Rightarrow> True))"

text \<open>
  A pass that, if it starts with the voice active and has a smoothed average, has it above
  \<open>continued_threshold\<close>.
\<close>

definition sustained_pass :: "loop_env \<Rightarrow> session \<times> tick \<Rightarrow> bool" where
  "sustained_pass E v =
     (if voice_started (fst v)
      then (case smoothed_of E (fst v) (snd v) of
              Some a \<Rightarrow> a > continued_threshold (params E)
            | None \<Rightarrow> True)
      else True)"


section \<open>Example inputs\<close>

text \<open>
  Frames of one sample (\<open>frame_length = 1\<close>): the sample -32768 has energy 1, the sample 0
  has energy 0. A frame of three bytes has the wrong size.
\<close>

definition loud_frame :: "byte list" where
  "loud_frame = [0x00, 0x80]"

definition quiet_frame :: "byte list" where
  "quiet_frame = [0x00, 0x00]"

definition odd_frame :: "byte list" where
  "odd_frame = [0x00, 0x80, 0x00]"

definition idle_tick :: "real \<Rightarrow> tick" where
  "idle_tick t = \<lparr> current_time = t, manual_stop = Inr False, reset_raises = None,
                  pcm_read = Inr None, vosk_result = Inr (False, None, []) \<rparr>"

definition frame_tick :: "real \<Rightarrow> byte list \<Rightarrow> tick" where
  "frame_tick t pcm = (idle_tick t)\<lparr>pcm_read := Inr (Some pcm)\<rparr>"

definition stop_tick :: "real \<Rightarrow> tick" where
  "stop_tick t = (idle_tick t)\<lparr>manual_stop := Inr True\<rparr>"

definition example_params :: vad_params where
  "example_params =
     \<lparr> energy_threshold = 1/2, continued_threshold = 3/10, silence_duration = 3,
       min_speech_duration = 1/2, speech_buffer_time = 1, max_recording_time = 45 \<rparr>"

definition example_scenario :: "tick list \<Rightarrow> string \<Rightarrow> scenario" where
  "example_scenario tks txt =
     \<lparr> speech_enabled = True, audio_stream = True,
       vad_config = [''energy_threshold'' \<mapsto> 1/2, ''min_speech_duration'' \<mapsto> 1/2],
       sample_rate = 16000, audio_frame_length = 1, start_reset_raises = None,
       start_clock = 0, ticks = tks, final_text = Inr txt \<rparr>"

definition hysteresis_params :: vad_params where
  "hysteresis_params = example_params\<lparr>energy_threshold := 3/4, continued_threshold := 1/4\<rparr>"

text \<open>The session state after one loud frame read at time 1 of a session started at time 0.\<close>

definition active_session :: session where
  "active_session =
     \<lparr> overall_start_time = 0, speech_start_time = 1, voice_started = True,
       silence_frames_count = 0, frame_history = [1], last_partial_print_time = None \<rparr>"


section \<open>Properties of the text helpers\<close>

lemma strip_Nil: "strip [] = []"
  by (simp add: strip_def lstrip_def rstrip_def)

lemma lstrip_fixed: "s \<noteq> [] \<Longrightarrow> \<not> is_space (hd s) \<Longrightarrow> lstrip s = s"
  by (cases s) (simp_all add: lstrip_def)

lemma rstrip_fixed: "s \<noteq> [] \<Longrightarrow> \<not> is_space (last s) \<Longrightarrow> rstrip s = s"
  by (cases s rule: rev_cases) (simp_all add: rstrip_def)

lemma rstrip_last: "rstrip s \<noteq> [] \<Longrightarrow> \<not> is_space (last (rstrip s))"
proof -
  assume a: "rstrip s \<noteq> []"
  then have "dropWhile is_space (rev s) \<noteq> []" by (simp add: rstrip_def)
  then have "\<not> is_space (hd (dropWhile is_space (rev s)))" by (rule hd_dropWhile)
  then show ?thesis using a by (simp add: rstrip_def last_rev)
qed

lemma rstrip_hd: "rstrip s \<noteq> [] \<Longrightarrow> hd (rstrip s) = hd s"
proof (induction s rule: rev_induct)
  case Nil
  then show ?case by (simp add: rstrip_def)
next
  case (snoc x xs)
  then show ?case by (cases "is_space x") (auto simp: rstrip_def hd_append)
qed

lemma lstrip_hd: "lstrip s \<noteq> [] \<Longrightarrow> \<not> is_space (hd (lstrip s))"
  unfolding lstrip_def by (rule hd_dropWhile)

lemma strip_hd: "strip s \<noteq> [] \<Longrightarrow> \<not> is_space (hd (strip s))"
proof -
  assume a: "strip s \<noteq> []"
  then have "lstrip s \<noteq> []" by (auto simp: strip_def rstrip_def)
  then have "\<not> is_space (hd (lstrip s))" by (rule lstrip_hd)
  then show ?thesis using a rstrip_hd [of "lstrip s"] by (simp add: strip_def)
qed

lemma strip_last: "strip s \<noteq> [] \<Longrightarrow> \<not> is_space (last (strip s))"
  unfolding strip_def by (rule rstrip_last)

text \<open>Trimming a trimmed text changes nothing.\<close>

lemma strip_idem: "strip (strip s) = strip s"
proof (cases "strip s = []")
  case True
  then show ?thesis by (simp add: strip_Nil)
next
  case False
  have "lstrip (strip s) = strip s"
    using False strip_hd [OF False] by (rule lstrip_fixed)
  moreover have "rstrip (strip s) = strip s"
    using False strip_last [OF False] by (rule rstrip_fixed)
  ultimately show ?thesis by (simp add: strip_def)
qed

lemma accept_timed_eq:
  "accept_timed raw =
     (if strip raw = [] \<or> strip (lower (strip raw)) = ''the'' \<or> length (strip raw) < 2
         \<or> length (split_ws (strip raw)) = 0
         \<or> (length (split_ws (strip raw)) = 1 \<and> length (strip raw) < 2)
      then None else Some (strip raw))"
  by (auto simp: accept_timed_def Let_def strip_Nil)

lemma accept_timed_idem: "accept_timed raw = Some t \<Longrightarrow> accept_timed t = Some t"
proof -
  assume a: "accept_timed raw = Some t"
  then have t: "t = strip raw" by (auto simp: accept_timed_eq split: if_splits)
  then have "strip t = t" by (simp add: strip_idem)
  then show ?thesis using a t by (auto simp: accept_timed_eq split: if_splits)
qed

lemma accept_timed_examples:
  "accept_timed ''the'' = None" "accept_timed '''' = None" "accept_timed ''a'' = None"
  "accept_timed ''ok go'' = Some ''ok go''" "accept_timed '' ok go '' = Some ''ok go''"
  by code_simp+

section \<open>The timed filter and the number of silent frames\<close>

text \<open>
  C3. The filter of timed capture returns \<open>None\<close> exactly when the trimmed text is empty,
  or its trimmed lowercase form is \<open>the\<close>, or it has fewer than 2 characters, or it has no
  word, or it is one word of fewer than 2 characters; otherwise it returns the trimmed
  text. It rejects \<open>the\<close>, the empty text and \<open>a\<close>, accepts \<open>ok go\<close>, and applied to a text
  it has accepted it returns that text again.
\<close>

theorem accept_timed_filter:
  "accept_timed raw =
     (if strip raw = [] \<or> strip (lower (strip raw)) = ''the'' \<or> length (strip raw) < 2
         \<or> length (split_ws (strip raw)) = 0
         \<or> (length (split_ws (strip raw)) = 1 \<and> length (strip raw) < 2)
      then None else Some (strip raw))
   \<and> accept_timed ''the'' = None \<and> accept_timed '''' = None \<and> accept_timed ''a'' = None
   \<and> accept_timed ''ok go'' = Some ''ok go''
   \<and> (accept_timed raw = Some t \<longrightarrow> accept_timed t = Some t)
   \<and> accept_timed (case accept_timed raw of Some t' \<Rightarrow> t' | None \<Rightarrow> raw) = accept_timed raw"
proof -
  have "accept_timed (case accept_timed raw of Some t' \<Rightarrow> t' | None \<Rightarrow> raw) = accept_timed raw"
    by (cases "accept_timed raw") (simp_all add: accept_timed_idem)
  then show ?thesis
    using accept_timed_eq [of raw] accept_timed_examples accept_timed_idem [of raw t]
    by blast
qed

theorem accept_timed_filter_witness:
  "accept_timed '' ok go '' = Some ''ok go'' \<and> accept_timed ''ok go'' = Some ''ok go''"
proof -
  have a: "accept_timed '' ok go '' = Some ''ok go''" by (rule accept_timed_examples)
  from accept_timed_filter [of "'' ok go ''" "''ok go''"] a show ?thesis by blast
qed




section \<open>Properties of one pass of the timed loop\<close>

lemma frame_energy_loud: "frame_energy loud_frame = 1"
  by (simp add: frame_energy_def loud_frame_def)

lemma frame_energy_quiet: "frame_energy quiet_frame = 0"
  by (simp add: frame_energy_def quiet_frame_def)

lemma vad_step_stop:
  "manual_stop tk = Inr True \<Longrightarrow>
   vad_step E st tk =
     (if voice_started st \<and> current_time tk - speech_start_time st > min_speech_duration (params E)
      then (Break ManualStopWithSpeech, [Sleep (speech_buffer_time (params E))])
      else (case reset_raises tk of
              Some e \<Rightarrow> (Raise e, [Reset])
            | None \<Rightarrow> (Break ManualStopWithoutSpeech, [Reset])))"
  by (simp add: vad_step_def Let_def)

lemma vad_step_raise: "manual_stop tk = Inl e \<Longrightarrow> vad_step E st tk = (Raise e, [])"
  by (simp add: vad_step_def Let_def)

lemma vad_step_timed_out:
  "manual_stop tk = Inr False \<Longrightarrow> timed_out E st tk \<Longrightarrow>
   vad_step E st tk = (if voice_started st then (Break MaxDuration, []) else (ReturnNone InitialTimeout, []))"
  by (simp add: vad_step_def Let_def timed_out_def)

lemma vad_step_no_frame:
  "manual_stop tk = Inr False \<Longrightarrow> \<not> timed_out E st tk \<Longrightarrow> pcm_read tk = Inr None \<Longrightarrow>
   vad_step E st tk = (Continue st, [Sleep 0.005])"
  by (auto simp add: vad_step_def Let_def timed_out_def)

lemma vad_step_bad_frame:
  "manual_stop tk = Inr False \<Longrightarrow> \<not> timed_out E st tk \<Longrightarrow> pcm_read tk = Inr (Some pcm) \<Longrightarrow>
   int (length pcm) \<noteq> frame_length E * 2 \<Longrightarrow>
   vad_step E st tk = (Continue st, if pcm = [] then [Sleep 0.005] else [])"
  by (auto simp add: vad_step_def Let_def timed_out_def)

lemma vad_step_empty_frame:
  "manual_stop tk = Inr False \<Longrightarrow> \<not> timed_out E st tk \<Longrightarrow> pcm_read tk = Inr (Some []) \<Longrightarrow>
   vad_step E st tk = (Continue st, [Sleep 0.005])"
  by (auto simp add: vad_step_def Let_def timed_out_def)

lemma vad_step_frame:
  "manual_stop tk = Inr False \<Longrightarrow> \<not> timed_out E st tk \<Longrightarrow> pcm_read tk = Inr (Some pcm) \<Longrightarrow>
   pcm \<noteq> [] \<Longrightarrow> int (length pcm) = frame_length E * 2 \<Longrightarrow>
   vad_step E st tk =
     (let st1 = st\<lparr>frame_history := push_history (frame_history st) (frame_energy pcm)\<rparr>;
          r = vad_state_machine E st1 (current_time tk) (avg_energy_of (frame_history st1))
                (fst (read_vosk (vosk_result tk))) (snd (read_vosk (vosk_result tk)))
      in (fst r, ProcessFrame pcm # snd r))"
  by (auto simp add: vad_step_def Let_def timed_out_def split: prod.splits)

lemma vad_step_read_raise:
  "manual_stop tk = Inr False \<Longrightarrow> \<not> timed_out E st tk \<Longrightarrow> pcm_read tk = Inl e \<Longrightarrow>
   vad_step E st tk = (Raise e, [])"
  by (auto simp add: vad_step_def Let_def timed_out_def)

text \<open>The ways one pass can go.\<close>

lemma vad_step_cases:
  obtains (raise) e where "manual_stop tk = Inl e"
  | (stop) "manual_stop tk = Inr True"
  | (timeout) "manual_stop tk = Inr False" "timed_out E st tk"
  | (read_raise) e where "manual_stop tk = Inr False" "\<not> timed_out E st tk" "pcm_read tk = Inl e"
  | (no_frame) "manual_stop tk = Inr False" "\<not> timed_out E st tk" "pcm_read tk = Inr None"
  | (empty) "manual_stop tk = Inr False" "\<not> timed_out E st tk" "pcm_read tk = Inr (Some [])"
  | (bad) pcm where "manual_stop tk = Inr False" "\<not> timed_out E st tk" "pcm_read tk = Inr (Some pcm)"
      "pcm \<noteq> []" "int (length pcm) \<noteq> frame_length E * 2"
  | (frame) pcm where "manual_stop tk = Inr False" "\<not> timed_out E st tk" "pcm_read tk = Inr (Some pcm)"
      "pcm \<noteq> []" "int (length pcm) = frame_length E * 2"
proof (cases "manual_stop tk")
  case (Inl e)
  then show ?thesis by (rule raise)
next
  case (Inr b)
  show ?thesis
  proof (cases b)
    case True
    with Inr show ?thesis by (simp add: stop)
  next
    case False
    with Inr have ms: "manual_stop tk = Inr False" by simp
    show ?thesis
    proof (cases "timed_out E st tk")
      case True
      with ms show ?thesis by (rule timeout)
    next
      case nt: False
      show ?thesis
      proof (cases "pcm_read tk")
        case (Inl e)
        with ms nt show ?thesis by (rule read_raise)
      next
        case r: (Inr f)
        show ?thesis
        proof (cases f)
          case None
          with ms nt r show ?thesis by (simp add: no_frame)
        next
          case (Some pcm)
          with ms nt r show ?thesis
            by (cases "pcm = []"; cases "int (length pcm) = frame_length E * 2")
               (auto intro: empty bad frame)
        qed
      qed
    qed
  qed
qed

text \<open>The state machine never returns \<open>None\<close> and never raises; it keeps what it does not set.\<close>

lemma vad_state_machine_continue:
  assumes "fst (vad_state_machine E st now avg fin part) = Continue st'"
  shows "snd (vad_state_machine E st now avg fin part) = []"
    and "overall_start_time st' = overall_start_time st"
    and "frame_history st' = frame_history st"
    and "voice_started st \<Longrightarrow> voice_started st'"
    and "voice_started st \<Longrightarrow> speech_start_time st' = speech_start_time st"
    and "voice_started st \<Longrightarrow> silence_frames_count st' =
           (if avg > continued_threshold (params E) then 0 else silence_frames_count st + 1)"
    and "\<not> voice_started st \<Longrightarrow> voice_started st' = (avg > energy_threshold (params E))"
  using assms by (auto simp: vad_state_machine_def Let_def split: if_splits)


text \<open>A pass that goes on either left the state alone or ran the state machine on a frame.\<close>

lemma vad_step_continue_cases:
  assumes "vad_step E st tk = (Continue st', a)"
  obtains (idle) "manual_stop tk = Inr False" "\<not> timed_out E st tk"
      "smoothed_of E st tk = None" "st' = st" "a = [] \<or> a = [Sleep 0.005]"
  | (frame) pcm where "manual_stop tk = Inr False" "\<not> timed_out E st tk"
      "pcm_read tk = Inr (Some pcm)" "pcm \<noteq> []" "int (length pcm) = frame_length E * 2"
      "smoothed_of E st tk = Some (avg_energy_of (push_history (frame_history st) (frame_energy pcm)))"
      "fst (vad_state_machine E
             (st\<lparr>frame_history := push_history (frame_history st) (frame_energy pcm)\<rparr>)
             (current_time tk)
             (avg_energy_of (push_history (frame_history st) (frame_energy pcm)))
             (fst (read_vosk (vosk_result tk))) (snd (read_vosk (vosk_result tk)))) = Continue st'"
      "a = [ProcessFrame pcm]"
proof (cases rule: vad_step_cases [where tk=tk and E=E and st=st])
  case (raise e)
  with assms show ?thesis by (simp add: vad_step_raise)
next
  case stop
  with assms show ?thesis by (simp add: vad_step_stop split: if_splits option.splits)
next
  case timeout
  with assms show ?thesis by (simp add: vad_step_timed_out split: if_splits)
next
  case (read_raise e)
  with assms show ?thesis by (simp add: vad_step_read_raise)
next
  case no_frame
  with assms show ?thesis by (intro idle) (auto simp: vad_step_no_frame smoothed_of_def)
next
  case empty
  with assms show ?thesis by (intro idle) (auto simp: vad_step_empty_frame smoothed_of_def)
next
  case (bad pcm)
  with assms show ?thesis by (intro idle) (auto simp: vad_step_bad_frame smoothed_of_def)
next
  case (frame pcm)
  let ?st1 = "st\<lparr>frame_history := push_history (frame_history st) (frame_energy pcm)\<rparr>"
  let ?r = "vad_state_machine E ?st1 (current_time tk)
             (avg_energy_of (push_history (frame_history st) (frame_energy pcm)))
             (fst (read_vosk (vosk_result tk))) (snd (read_vosk (vosk_result tk)))"
  from assms frame have r: "fst ?r = Continue st'" and a: "a = ProcessFrame pcm # snd ?r"
    by (simp_all add: vad_step_frame Let_def)
  from r have "snd ?r = []" by (rule vad_state_machine_continue(1))
  with a have "a = [ProcessFrame pcm]" by simp
  moreover from frame have
    "smoothed_of E st tk = Some (avg_energy_of (push_history (frame_history st) (frame_energy pcm)))"
    by (simp add: smoothed_of_def)
  ultimately show ?thesis using frame r by (intro that(2)) auto
qed

lemma vad_step_continue:
  assumes "vad_step E st tk = (Continue st', a)"
  shows "overall_start_time st' = overall_start_time st"
    and "voice_started st \<Longrightarrow> voice_started st'"
    and "StopListening \<notin> set a" and "Reset \<notin> set a" and "GetFinalText \<notin> set a"
  using assms
  by (cases rule: vad_step_continue_cases;
      auto dest: vad_state_machine_continue(2) vad_state_machine_continue(4))+

section \<open>Properties of runs of the timed loop\<close>

lemma vad_step_not_silence:
  assumes "1 \<le> silence_frames_needed E" and "sustained_pass E (st, tk)"
  shows "fst (vad_step E st tk) \<noteq> Break SilenceTimeout"
proof (cases rule: vad_step_cases [where tk=tk and E=E and st=st])
  case (frame pcm)
  let ?h = "push_history (frame_history st) (frame_energy pcm)"
  have sm: "smoothed_of E st tk = Some (avg_energy_of ?h)"
    using frame by (simp add: smoothed_of_def)
  show ?thesis
  proof (cases "voice_started st")
    case True
    with assms(2) sm have "avg_energy_of ?h > continued_threshold (params E)"
      by (simp add: sustained_pass_def)
    with assms(1) frame show ?thesis
      by (simp add: vad_step_frame Let_def vad_state_machine_def)
  next
    case False
    with frame show ?thesis
      by (simp add: vad_step_frame Let_def vad_state_machine_def)
  qed
qed (simp_all add: vad_step_raise vad_step_stop vad_step_timed_out vad_step_read_raise
       vad_step_no_frame vad_step_empty_frame vad_step_bad_frame split: option.splits)

lemma vad_loop_Cons_continue:
  "vad_step E st tk = (Continue st', a) \<Longrightarrow>
   vad_loop E st (tk # tks) = (fst (vad_loop E st' tks), a @ snd (vad_loop E st' tks))"
  by (simp add: split_beta)

lemma vad_loop_Cons_stop:
  "vad_step E st tk = (oc, a) \<Longrightarrow> (\<And>s. oc \<noteq> Continue s) \<Longrightarrow>
   vad_loop E st (tk # tks) = (oc, a)"
  by (cases oc) auto

lemma vad_visits_Cons_continue:
  "vad_step E st tk = (Continue st', a) \<Longrightarrow>
   vad_visits E st (tk # tks) = (st, tk) # vad_visits E st' tks"
  by simp

lemma vad_visits_Cons_stop:
  "vad_step E st tk = (oc, a) \<Longrightarrow> (\<And>s. oc \<noteq> Continue s) \<Longrightarrow>
   vad_visits E st (tk # tks) = [(st, tk)]"
  by (cases oc) auto

declare vad_loop.simps(2) [simp del]
declare vad_visits.simps(2) [simp del]

lemma vad_loop_not_silence:
  assumes "1 \<le> silence_frames_needed E"
    and "\<forall>v \<in> set (vad_visits E st tks). sustained_pass E v"
  shows "fst (vad_loop E st tks) \<noteq> Break SilenceTimeout"
  using assms(2)
proof (induction tks arbitrary: st)
  case Nil
  show ?case by simp
next
  case (Cons tk tks)
  have "(st, tk) \<in> set (vad_visits E st (tk # tks))"
    by (simp add: vad_visits.simps(2))
  with Cons.prems have here: "sustained_pass E (st, tk)" by blast
  have ns: "fst (vad_step E st tk) \<noteq> Break SilenceTimeout"
    using assms(1) here by (rule vad_step_not_silence)
  obtain oc a where step: "vad_step E st tk = (oc, a)" by (cases "vad_step E st tk")
  show ?case
  proof (cases oc)
    case (Continue st')
    with step have s: "vad_step E st tk = (Continue st', a)" by simp
    with Cons.prems have "\<forall>v \<in> set (vad_visits E st' tks). sustained_pass E v"
      by (simp add: vad_visits_Cons_continue [OF s])
    then have "fst (vad_loop E st' tks) \<noteq> Break SilenceTimeout" by (rule Cons.IH)
    then show ?thesis by (simp add: vad_loop_Cons_continue [OF s])
  qed (use step ns in \<open>auto simp: vad_loop_Cons_stop\<close>)
qed

lemma vad_visits_voice_started:
  "voice_started st \<Longrightarrow> \<forall>v \<in> set (vad_visits E st tks). voice_started (fst v)"
proof (induction tks arbitrary: st)
  case Nil
  show ?case by simp
next
  case (Cons tk tks)
  obtain oc a where step: "vad_step E st tk = (oc, a)" by (cases "vad_step E st tk")
  show ?case
  proof (cases oc)
    case (Continue st')
    with step have s: "vad_step E st tk = (Continue st', a)" by simp
    then have "voice_started st'" using Cons.prems by (rule vad_step_continue(2))
    then have "\<forall>v \<in> set (vad_visits E st' tks). voice_started (fst v)" by (rule Cons.IH)
    with Cons.prems show ?thesis by (simp add: vad_visits_Cons_continue [OF s])
  qed (use step Cons.prems in \<open>auto simp: vad_visits_Cons_stop\<close>)
qed

lemma vad_loop_voice_started:
  "voice_started st \<Longrightarrow> fst (vad_loop E st tks) = Continue st' \<Longrightarrow> voice_started st'"
proof (induction tks arbitrary: st)
  case Nil
  then show ?case by simp
next
  case (Cons tk tks)
  obtain oc a where step: "vad_step E st tk = (oc, a)" by (cases "vad_step E st tk")
  show ?case
  proof (cases oc)
    case (Continue s1)
    with step have s: "vad_step E st tk = (Continue s1, a)" by simp
    then have "voice_started s1" using Cons.prems(1) by (rule vad_step_continue(2))
    moreover from Cons.prems(2) have "fst (vad_loop E s1 tks) = Continue st'"
      by (simp add: vad_loop_Cons_continue [OF s])
    ultimately show ?thesis by (rule Cons.IH)
  qed (use step Cons.prems in \<open>auto simp: vad_loop_Cons_stop\<close>)
qed

lemma vad_step_silence_count:
  assumes "vad_step E st tk = (Continue st', a)" and "voice_started st"
    and "smoothed_of E st tk = Some avg"
  shows "silence_frames_count st' =
           (if avg > continued_threshold (params E) then 0 else silence_frames_count st + 1)"
  using assms(1)
proof (cases rule: vad_step_continue_cases)
  case idle
  with assms(3) show ?thesis by simp
next
  case (frame pcm)
  from frame(6) assms(3)
  have avg: "avg = avg_energy_of (push_history (frame_history st) (frame_energy pcm))" by simp
  from assms(2)
  have "voice_started (st\<lparr>frame_history := push_history (frame_history st) (frame_energy pcm)\<rparr>)"
    by simp
  from vad_state_machine_continue(6) [OF frame(7) this] avg show ?thesis by simp
qed

section \<open>Evaluating the examples\<close>

lemma example_frames:
  "loud_frame \<noteq> []" "length loud_frame = 2"
  "quiet_frame \<noteq> []" "length quiet_frame = 2"
  "odd_frame \<noteq> []" "length odd_frame = 3"
  "loud_frame \<noteq> quiet_frame"
  by (simp_all add: loud_frame_def quiet_frame_def odd_frame_def)

lemmas run_eval =
  vad_loop.simps(2) vad_visits.simps(2) initial_timeout_of_def vad_step_def vad_state_machine_def Let_def
  timed_env_def initial_session_def active_session_def idle_tick_def frame_tick_def stop_tick_def
  example_params_def hysteresis_params_def example_frames frame_energy_loud frame_energy_quiet
  push_history_def frame_history_length_def avg_energy_of_def read_vosk_def
  current_partial_of_def note_partial_def smoothed_of_def sustained_pass_def quiet_pass_def
  timed_out_def

lemma hysteresis_example:
  "vad_loop (timed_env hysteresis_params False 48000 1) (initial_session 0)
     [frame_tick 1 loud_frame] = (Continue active_session, [ProcessFrame loud_frame])"
  "smoothed_of (timed_env hysteresis_params False 48000 1) active_session
     (frame_tick 2 quiet_frame) = Some (1/2)"
  "\<forall>v \<in> set (vad_visits (timed_env hysteresis_params False 48000 1) active_session
                  [frame_tick 2 quiet_frame]). sustained_pass (timed_env hysteresis_params False 48000 1) v"
  "vad_step (timed_env hysteresis_params False 48000 1) active_session (frame_tick 2 quiet_frame)
     = (Continue (active_session\<lparr>frame_history := [1, 0]\<rparr>), [ProcessFrame quiet_frame])"
  by (simp_all add: run_eval)

text \<open>
  C2 (amended). Once the voice is active it stays active in every later pass. A pass with
  the voice active and a smoothed average sets \<open>silence_frames_count\<close> to 0 when the
  average is above \<open>continued_threshold\<close> and adds 1 to it otherwise. When
  \<open>silence_frames_needed\<close> is at least 1 and every smoothed average of a voice-active pass is
  above \<open>continued_threshold\<close>, the loop never ends by \<open>SilenceTimeout\<close>, whatever
  \<open>energy_threshold\<close> is.
\<close>

theorem hysteresis_keeps_voice_active:
  "(voice_started st \<longrightarrow> (\<forall>v \<in> set (vad_visits E st tks). voice_started (fst v)))
   \<and> (voice_started st \<longrightarrow> (\<forall>st'. fst (vad_loop E st tks) = Continue st' \<longrightarrow> voice_started st'))
   \<and> (voice_started st \<and> vad_step E st tk = (Continue st1, a) \<and> smoothed_of E st tk = Some avg
        \<longrightarrow> silence_frames_count st1 =
              (if avg > continued_threshold (params E) then 0 else silence_frames_count st + 1))
   \<and> (1 \<le> silence_frames_needed E \<and> (\<forall>v \<in> set (vad_visits E st tks). sustained_pass E v)
        \<longrightarrow> fst (vad_loop E st tks) \<noteq> Break SilenceTimeout)"
  using vad_visits_voice_started [of st E tks] vad_loop_voice_started [of st E tks]
    vad_step_silence_count [of E st tk st1 a avg] vad_loop_not_silence [of E st tks]
  by blast

theorem hysteresis_keeps_voice_active_witness:
  "voice_started active_session
   \<and> 1 \<le> silence_frames_needed (timed_env hysteresis_params False 48000 1)
   \<and> smoothed_of (timed_env hysteresis_params False 48000 1) active_session
        (frame_tick 2 quiet_frame) = Some (1/2)
   \<and> continued_threshold hysteresis_params < 1/2 \<and> 1/2 < energy_threshold hysteresis_params
   \<and> silence_frames_count (active_session\<lparr>frame_history := [1, 0]\<rparr>) = 0
   \<and> fst (vad_loop (timed_env hysteresis_params False 48000 1) active_session
            [frame_tick 2 quiet_frame]) \<noteq> Break SilenceTimeout"
proof -
  let ?E = "timed_env hysteresis_params False 48000 1"
  have h1: "voice_started active_session" by (simp add: active_session_def)
  have h2: "1 \<le> silence_frames_needed ?E" by (simp add: timed_env_def)
  have h3: "continued_threshold hysteresis_params < 1/2 \<and> 1/2 < energy_threshold hysteresis_params"
    by (simp add: hysteresis_params_def example_params_def)
  have h4: "silence_frames_count (active_session\<lparr>frame_history := [1, 0]\<rparr>) = 0"
    by (simp add: active_session_def)
  from hysteresis_keeps_voice_active [of active_session ?E "[frame_tick 2 quiet_frame]"
      "frame_tick 2 quiet_frame" "active_session\<lparr>frame_history := [1, 0]\<rparr>"
      "[ProcessFrame quiet_frame]" "1/2"]
    h1 h2 h3 h4 hysteresis_example(2) hysteresis_example(3)
  show ?thesis by blast
qed

text \<open>
  With \<open>silence_duration = 0\<close> the code computes \<open>silence_frames_needed = 0\<close>. Two loud
  frames then end the session by \<open>SilenceTimeout\<close> although both smoothed averages are 1,
  above \<open>continued_threshold = 3/10\<close>.
\<close>

theorem silence_timeout_despite_energy_counterexample:
  "silence_frames_needed_of 0 16000 1 = Inr 0
   \<and> smoothed_of (timed_env (example_params\<lparr>silence_duration := 0\<rparr>) False 0 1)
        (initial_session 0) (frame_tick 1 loud_frame) = Some 1
   \<and> smoothed_of (timed_env (example_params\<lparr>silence_duration := 0\<rparr>) False 0 1)
        active_session (frame_tick 2 loud_frame) = Some 1
   \<and> continued_threshold (example_params\<lparr>silence_duration := 0\<rparr>) < 1
   \<and> vad_loop (timed_env (example_params\<lparr>silence_duration := 0\<rparr>) False 0 1) (initial_session 0)
        [frame_tick 1 loud_frame] = (Continue active_session, [ProcessFrame loud_frame])
   \<and> vad_loop (timed_env (example_params\<lparr>silence_duration := 0\<rparr>) False 0 1) (initial_session 0)
        [frame_tick 1 loud_frame, frame_tick 2 loud_frame]
      = (Break SilenceTimeout, [ProcessFrame loud_frame, ProcessFrame loud_frame, Sleep 1])"
  by (simp add: run_eval silence_frames_needed_of_def py_int_def)

section \<open>The capture calls and single frames\<close>

lemma vad_loop_append:
  "vad_loop E st pre = (Continue st', acts) \<Longrightarrow>
   vad_loop E st (pre @ tks) = (fst (vad_loop E st' tks), acts @ snd (vad_loop E st' tks))"
proof (induction pre arbitrary: st acts)
  case Nil
  then show ?case by simp
next
  case (Cons tk pre)
  obtain oc a where step: "vad_step E st tk = (oc, a)" by (cases "vad_step E st tk")
  show ?case
  proof (cases oc)
    case (Continue s1)
    with step have s: "vad_step E st tk = (Continue s1, a)" by simp
    from Cons.prems have l: "vad_loop E s1 pre = (Continue st', snd (vad_loop E s1 pre))"
      and acts: "acts = a @ snd (vad_loop E s1 pre)"
      by (simp_all add: vad_loop_Cons_continue [OF s] prod_eq_iff)
    from Cons.IH [OF l] acts show ?thesis
      by (simp add: vad_loop_Cons_continue [OF s])
  qed (use step Cons.prems in \<open>auto simp: vad_loop_Cons_stop\<close>)
qed

text \<open>What a timed capture returns once its set-up has gone through, by the way the loop ends.\<close>

lemma capture_timed_started:
  assumes "speech_enabled sc" and "audio_stream sc"
    and "extract_parameters (vad_config sc) = Inr p" and "start_reset_raises sc = None"
    and "silence_frames_needed_of (silence_duration p) (sample_rate sc) (audio_frame_length sc) = Inr n"
    and "vad_loop (timed_env p fu n (audio_frame_length sc)) (initial_session (start_clock sc))
           (ticks sc) = (oc, acts)"
    and "a1 = [UpdateDisplay ''listening'' (if \<not> fu then ''curious'' else ''attentive''),
               InitializeInput, StartListening, Reset] @ acts"
  shows "capture_speech_with_unified_vad sc fu =
     (case oc of
        Continue st \<Rightarrow> (StillRunning, a1)
      | ReturnNone r \<Rightarrow> (Returns None, a1 @ [StopListening])
      | Raise e \<Rightarrow> (Returns None, a1 @ [StopListening])
      | Break r \<Rightarrow>
          (case final_text sc of
             Inl e \<Rightarrow> (Returns None, a1 @ [GetFinalText, StopListening])
           | Inr txt \<Rightarrow> (Returns (accept_timed txt), a1 @ [GetFinalText, StopListening])))"
  using assms
  by (cases oc; cases "final_text sc"; cases fu)
     (simp_all add: capture_speech_with_unified_vad_def Let_def)

lemma example_setup:
  "speech_enabled (example_scenario tks txt)" "audio_stream (example_scenario tks txt)"
  "extract_parameters (vad_config (example_scenario tks txt)) = Inr example_params"
  "start_reset_raises (example_scenario tks txt) = None"
  "silence_frames_needed_of (silence_duration example_params)
     (sample_rate (example_scenario tks txt)) (audio_frame_length (example_scenario tks txt)) = Inr 48000"
  "ticks (example_scenario tks txt) = tks" "final_text (example_scenario tks txt) = Inr txt"
  "start_clock (example_scenario tks txt) = 0" "audio_frame_length (example_scenario tks txt) = 1"
  by (simp_all add: example_scenario_def extract_parameters_def dict_get_def example_params_def
        silence_frames_needed_of_def py_int_def)

lemma first_loud_frame:
  "vad_loop (timed_env example_params fu n 1) (initial_session 0) [frame_tick 1 loud_frame]
     = (Continue active_session, [ProcessFrame loud_frame])"
  by (cases fu) (simp_all add: run_eval)

text \<open>
  C8. A frame whose byte length is not \<open>frame_length * 2\<close> is dropped: the pass calls no
  \<open>process_frame\<close>, and when it goes on, the session state (frame history,
  \<open>silence_frames_count\<close>, \<open>voice_started\<close>, \<open>overall_start_time\<close>, \<open>speech_start_time\<close>)
  is the one it started with.
\<close>

theorem wrong_size_frame_discarded:
  assumes "pcm_read tk = Inr (Some pcm)" and "int (length pcm) \<noteq> frame_length E * 2"
  shows "(\<forall>f. ProcessFrame f \<notin> set (snd (vad_step E st tk)))
       \<and> (\<forall>st'. fst (vad_step E st tk) = Continue st' \<longrightarrow> st' = st)
       \<and> (manual_stop tk = Inr False \<and> \<not> timed_out E st tk \<longrightarrow>
            vad_step E st tk = (Continue st, if pcm = [] then [Sleep 0.005] else []))"
proof (cases rule: vad_step_cases [where tk=tk and E=E and st=st])
  case (raise e)
  then show ?thesis by (simp add: vad_step_raise)
next
  case stop
  then show ?thesis by (simp add: vad_step_stop split: option.splits)
next
  case timeout
  then show ?thesis by (simp add: vad_step_timed_out)
next
  case (read_raise e)
  with assms show ?thesis by simp
next
  case no_frame
  with assms show ?thesis by simp
next
  case empty
  with assms show ?thesis by (simp add: vad_step_empty_frame)
next
  case (bad pcm')
  with assms show ?thesis by (simp add: vad_step_bad_frame)
next
  case (frame pcm')
  with assms show ?thesis by simp
qed

theorem wrong_size_frame_discarded_witness:
  "pcm_read (frame_tick 2 odd_frame) = Inr (Some odd_frame)
   \<and> int (length odd_frame) \<noteq> frame_length (timed_env example_params False 48000 1) * 2
   \<and> manual_stop (frame_tick 2 odd_frame) = Inr False
   \<and> \<not> timed_out (timed_env example_params False 48000 1) active_session (frame_tick 2 odd_frame)
   \<and> vad_step (timed_env example_params False 48000 1) active_session (frame_tick 2 odd_frame)
       = (Continue active_session, [])"
proof -
  let ?E = "timed_env example_params False 48000 1" and ?tk = "frame_tick 2 odd_frame"
  have h1: "pcm_read ?tk = Inr (Some odd_frame)" by (simp add: frame_tick_def idle_tick_def)
  have h2: "int (length odd_frame) \<noteq> frame_length ?E * 2"
    by (simp add: example_frames timed_env_def)
  have h3: "manual_stop ?tk = Inr False" by (simp add: frame_tick_def idle_tick_def)
  have h4: "\<not> timed_out ?E active_session ?tk" by (simp add: run_eval)
  from wrong_size_frame_discarded [OF h1 h2, of active_session] h1 h2 h3 h4 example_frames(5)
  show ?thesis by simp
qed

text \<open>
  C9. In push-to-talk capture a pass that reads a non-empty frame hands it to
  \<open>process_frame\<close> whatever its length; the timed loop does not hand over a frame whose
  length is not \<open>frame_length * 2\<close>.
\<close>

theorem push_to_talk_forwards_any_frame:
  assumes "manual_stop tk = Inr False"
    and "\<not> current_time tk - start_time st > ptt_max_recording_time"
    and "pcm_read tk = Inr (Some pcm)" and "pcm \<noteq> []"
  shows "snd (ptt_step st tk) = [ProcessFrame pcm]
       \<and> (\<exists>st'. fst (ptt_step st tk) = Continue st')
       \<and> (int (length pcm) \<noteq> frame_length E * 2 \<longrightarrow>
            ProcessFrame pcm \<notin> set (snd (vad_step E vst tk)))"
proof -
  have "snd (ptt_step st tk) = [ProcessFrame pcm] \<and> (\<exists>st'. fst (ptt_step st tk) = Continue st')"
    using assms by (cases "vosk_result tk") (auto simp: ptt_step_def Let_def)
  moreover have "int (length pcm) \<noteq> frame_length E * 2 \<longrightarrow>
      ProcessFrame pcm \<notin> set (snd (vad_step E vst tk))"
    using assms
    by (cases "timed_out E vst tk")
       (auto simp: vad_step_timed_out vad_step_bad_frame)
  ultimately show ?thesis by blast
qed

theorem push_to_talk_forwards_any_frame_witness:
  "manual_stop (frame_tick 2 odd_frame) = Inr False
   \<and> \<not> current_time (frame_tick 2 odd_frame) - start_time (ptt_initial_session 0)
         > ptt_max_recording_time
   \<and> pcm_read (frame_tick 2 odd_frame) = Inr (Some odd_frame) \<and> odd_frame \<noteq> []
   \<and> int (length odd_frame) \<noteq> frame_length (timed_env example_params False 48000 1) * 2
   \<and> snd (ptt_step (ptt_initial_session 0) (frame_tick 2 odd_frame)) = [ProcessFrame odd_frame]
   \<and> ProcessFrame odd_frame \<notin> set (snd (vad_step (timed_env example_params False 48000 1)
        active_session (frame_tick 2 odd_frame)))"
proof -
  let ?E = "timed_env example_params False 48000 1" and ?tk = "frame_tick 2 odd_frame"
  have h1: "manual_stop ?tk = Inr False" by (simp add: frame_tick_def idle_tick_def)
  have h2: "\<not> current_time ?tk - start_time (ptt_initial_session 0) > ptt_max_recording_time"
    by (simp add: frame_tick_def idle_tick_def ptt_initial_session_def ptt_max_recording_time_def)
  have h3: "pcm_read ?tk = Inr (Some odd_frame)" by (simp add: frame_tick_def idle_tick_def)
  have h4: "odd_frame \<noteq> []" by (rule example_frames)
  have h5: "int (length odd_frame) \<noteq> frame_length ?E * 2"
    by (simp add: example_frames timed_env_def)
  from push_to_talk_forwards_any_frame [OF h1 h2 h3 h4, of ?E active_session] h1 h2 h3 h4 h5
  show ?thesis by blast
qed

text \<open>
  C10. When the voice is active and the time since \<open>speech_start_time\<close> exceeds
  \<open>max_recording_time\<close>, the pass leaves the loop as \<open>MaxDuration\<close> without any action:
  no pause and no \<open>reset\<close>. The capture then calls \<open>get_final_text\<close> right after
  the actions of the earlier passes and returns what the full filter makes of the text.
\<close>

theorem max_duration_goes_to_final_text:
  assumes "speech_enabled sc" and "audio_stream sc"
    and "extract_parameters (vad_config sc) = Inr p" and "start_reset_raises sc = None"
    and "silence_frames_needed_of (silence_duration p) (sample_rate sc) (audio_frame_length sc) = Inr n"
    and "E = timed_env p fu n (audio_frame_length sc)"
    and "ticks sc = pre @ tk # post"
    and "vad_loop E (initial_session (start_clock sc)) pre = (Continue st, acts)"
    and "manual_stop tk = Inr False" and "voice_started st"
    and "current_time tk - speech_start_time st > max_recording_time p"
    and "final_text sc = Inr txt"
  shows "vad_step E st tk = (Break MaxDuration, [])
       \<and> vad_loop E (initial_session (start_clock sc)) (ticks sc) = (Break MaxDuration, acts)
       \<and> capture_speech_with_unified_vad sc fu =
           (Returns (accept_timed txt),
            [UpdateDisplay ''listening'' (if \<not> fu then ''curious'' else ''attentive''),
             InitializeInput, StartListening, Reset] @ acts @ [GetFinalText, StopListening])"
proof -
  have "timed_out E st tk"
    using assms(6,10,11) by (simp add: timed_out_def timed_env_def)
  with assms(9,10) have step: "vad_step E st tk = (Break MaxDuration, [])"
    by (simp add: vad_step_timed_out)
  then have "vad_loop E st (tk # post) = (Break MaxDuration, [])"
    by (simp add: vad_loop_Cons_stop)
  with vad_loop_append [OF assms(8), of "tk # post"] assms(7)
  have loop: "vad_loop E (initial_session (start_clock sc)) (ticks sc) = (Break MaxDuration, acts)"
    by simp
  from capture_timed_started [OF assms(1-5) loop [unfolded assms(6)] refl, of ] assms(12)
  have "capture_speech_with_unified_vad sc fu =
           (Returns (accept_timed txt),
            [UpdateDisplay ''listening'' (if \<not> fu then ''curious'' else ''attentive''),
             InitializeInput, StartListening, Reset] @ acts @ [GetFinalText, StopListening])"
    by simp
  with step loop show ?thesis by blast
qed

lemma accept_hello_world: "accept_timed ''hello world'' = Some ''hello world''"
  by code_simp

theorem max_duration_goes_to_final_text_witness:
  "vad_loop (timed_env example_params False 48000 1) (initial_session 0)
      [frame_tick 1 loud_frame] = (Continue active_session, [ProcessFrame loud_frame])
   \<and> manual_stop (idle_tick 47) = Inr False \<and> voice_started active_session
   \<and> current_time (idle_tick 47) - speech_start_time active_session
        > max_recording_time example_params
   \<and> capture_speech_with_unified_vad
        (example_scenario [frame_tick 1 loud_frame, idle_tick 47] ''hello world'') False
      = (Returns (Some ''hello world''),
         [UpdateDisplay ''listening'' ''curious'', InitializeInput, StartListening, Reset,
          ProcessFrame loud_frame, GetFinalText, StopListening])"
proof -
  let ?sc = "example_scenario [frame_tick 1 loud_frame, idle_tick 47] ''hello world''"
  have t: "ticks ?sc = [frame_tick 1 loud_frame] @ idle_tick 47 # []"
    by (simp add: example_setup)
  have l: "vad_loop (timed_env example_params False 48000 (audio_frame_length ?sc))
             (initial_session (start_clock ?sc)) [frame_tick 1 loud_frame]
           = (Continue active_session, [ProcessFrame loud_frame])"
    by (simp add: example_setup first_loud_frame)
  have h1: "manual_stop (idle_tick 47) = Inr False" by (simp add: idle_tick_def)
  have h2: "voice_started active_session" by (simp add: active_session_def)
  have h3: "current_time (idle_tick 47) - speech_start_time active_session
              > max_recording_time example_params"
    by (simp add: idle_tick_def active_session_def example_params_def)
  from max_duration_goes_to_final_text [OF example_setup(1,2,3,4,5) refl t l h1 h2 h3 example_setup(7)]
    h1 h2 h3 first_loud_frame [of False 48000] accept_hello_world
  show ?thesis by simp
qed

section \<open>Push-to-talk capture\<close>



declare ptt_loop.simps(2) [simp del]








section \<open>Clean-up and exceptions\<close>













text \<open>
  Not covered by the theorem above: \<open>transcriber.reset()\<close> on lines 85 and 259 is called after
  \<open>start_listening\<close> and before the \<open>try\<close>. When it raises, the exception leaves the call
  and \<open>stop_listening\<close> is not called.
\<close>

lemma reset_failure_escapes:
  "capture_speech_with_unified_vad
     ((example_scenario tks txt)\<lparr>start_reset_raises := Some (Raised ''Failed to connect to VOSK server'')\<rparr>)
     False
   = (Escapes (Raised ''Failed to connect to VOSK server''),
      [UpdateDisplay ''listening'' ''curious'', InitializeInput, StartListening, Reset])"
  "capture_speech_push_to_talk
     ((example_scenario tks txt)\<lparr>start_reset_raises := Some (Raised ''Failed to connect to VOSK server'')\<rparr>)
   = (Escapes (Raised ''Failed to connect to VOSK server''),
      [UpdateDisplay ''listening'' ''attentive'', InitializeInput, StartListening, Reset])"
  by (simp_all add: capture_speech_with_unified_vad_def capture_speech_push_to_talk_def
        example_scenario_def extract_parameters_def)

section \<open>Waiting for the voice\<close>

lemma quiet_step:
  assumes "\<not> voice_started st" and "quiet_pass E (st, tk)"
  shows "timed_out E st tk \<Longrightarrow> vad_step E st tk = (ReturnNone InitialTimeout, [])"
    and "\<not> timed_out E st tk \<Longrightarrow>
         \<exists>st' a. vad_step E st tk = (Continue st', a) \<and> \<not> voice_started st'
           \<and> overall_start_time st' = overall_start_time st
           \<and> Reset \<notin> set a \<and> GetFinalText \<notin> set a"
proof -
  from assms(2) have ms: "manual_stop tk = Inr False" by (simp add: quiet_pass_def)
  show "timed_out E st tk \<Longrightarrow> vad_step E st tk = (ReturnNone InitialTimeout, [])"
    using ms assms(1) by (simp add: vad_step_timed_out)
  assume nt: "\<not> timed_out E st tk"
  show "\<exists>st' a. vad_step E st tk = (Continue st', a) \<and> \<not> voice_started st'
           \<and> overall_start_time st' = overall_start_time st
           \<and> Reset \<notin> set a \<and> GetFinalText \<notin> set a"
  proof (cases rule: vad_step_cases [where tk=tk and E=E and st=st])
    case (raise e)
    with ms show ?thesis by simp
  next
    case stop
    with ms show ?thesis by simp
  next
    case timeout
    with nt show ?thesis by simp
  next
    case (read_raise e)
    with assms(2) show ?thesis by (simp add: quiet_pass_def)
  next
    case no_frame
    with assms(1) show ?thesis by (simp add: vad_step_no_frame)
  next
    case empty
    with assms(1) show ?thesis by (simp add: vad_step_empty_frame)
  next
    case (bad pcm)
    with assms(1) show ?thesis by (simp add: vad_step_bad_frame)
  next
    case (frame pcm)
    let ?h = "push_history (frame_history st) (frame_energy pcm)"
    from frame have "smoothed_of E st tk = Some (avg_energy_of ?h)"
      by (simp add: smoothed_of_def)
    with assms(2) have "avg_energy_of ?h \<le> energy_threshold (params E)"
      by (simp add: quiet_pass_def)
    with frame assms(1) show ?thesis
      by (simp add: vad_step_frame Let_def vad_state_machine_def)
  qed
qed

lemma quiet_loop:
  assumes "\<not> voice_started st" and "\<forall>v \<in> set (vad_visits E st tks). quiet_pass E v"
  shows "(if \<exists>tk \<in> set tks. current_time tk - overall_start_time st > initial_timeout E
          then fst (vad_loop E st tks) = ReturnNone InitialTimeout
          else (\<exists>st'. fst (vad_loop E st tks) = Continue st' \<and> \<not> voice_started st'))
       \<and> Reset \<notin> set (snd (vad_loop E st tks))
       \<and> GetFinalText \<notin> set (snd (vad_loop E st tks))"
  using assms
proof (induction tks arbitrary: st)
  case Nil
  then show ?case by simp
next
  case (Cons tk tks)
  have "(st, tk) \<in> set (vad_visits E st (tk # tks))" by (simp add: vad_visits.simps(2))
  with Cons.prems(2) have q: "quiet_pass E (st, tk)" by blast
  have late: "timed_out E st tk \<longleftrightarrow> current_time tk - overall_start_time st > initial_timeout E"
    using Cons.prems(1) by (simp add: timed_out_def)
  show ?case
  proof (cases "timed_out E st tk")
    case True
    from quiet_step(1) [OF Cons.prems(1) q True]
    have "vad_loop E st (tk # tks) = (ReturnNone InitialTimeout, [])"
      by (simp add: vad_loop_Cons_stop)
    with True late show ?thesis by auto
  next
    case False
    from quiet_step(2) [OF Cons.prems(1) q False]
    obtain st' a where s: "vad_step E st tk = (Continue st', a)" and nv: "\<not> voice_started st'"
      and os: "overall_start_time st' = overall_start_time st"
      and a: "Reset \<notin> set a" "GetFinalText \<notin> set a"
      by blast
    from Cons.prems(2) have "\<forall>v \<in> set (vad_visits E st' tks). quiet_pass E v"
      by (simp add: vad_visits_Cons_continue [OF s])
    from Cons.IH [OF nv this] False late os a show ?thesis
      by (simp add: vad_loop_Cons_continue [OF s])
  qed
qed

text \<open>
  C5 (amended). While no voice has started, a pass that sees no manual stop and finds
  more than \<open>initial_timeout\<close> (4 s for a follow-up, 8 s otherwise) elapsed since the start
  of the session returns \<open>None\<close> at once: no \<open>get_final_text\<close>, no transcript, and no
  \<open>reset\<close> of the recognizer at this point. For passes without manual stop and without a
  raising read whose smoothed energy never exceeds \<open>energy_threshold\<close>, the call returns
  \<open>None\<close> by this timeout as soon as a pass is that late, and has not returned as long
  as no pass is.
\<close>

theorem initial_timeout_returns_none:
  assumes "speech_enabled sc" and "audio_stream sc"
    and "extract_parameters (vad_config sc) = Inr p" and "start_reset_raises sc = None"
    and "silence_frames_needed_of (silence_duration p) (sample_rate sc) (audio_frame_length sc) = Inr n"
    and "E = timed_env p fu n (audio_frame_length sc)"
    and "\<forall>v \<in> set (vad_visits E (initial_session (start_clock sc)) (ticks sc)). quiet_pass E v"
  shows "initial_timeout E = (if fu then 4 else 8)
       \<and> (\<not> voice_started st \<and> manual_stop tk = Inr False
            \<and> current_time tk - overall_start_time st > initial_timeout E
          \<longrightarrow> vad_step E st tk = (ReturnNone InitialTimeout, []))
       \<and> ((\<exists>tk \<in> set (ticks sc). current_time tk - start_clock sc > (if fu then 4 else 8)) \<longrightarrow>
            fst (vad_loop E (initial_session (start_clock sc)) (ticks sc)) = ReturnNone InitialTimeout
            \<and> capture_speech_with_unified_vad sc fu =
                (Returns None,
                 [UpdateDisplay ''listening'' (if \<not> fu then ''curious'' else ''attentive''),
                  InitializeInput, StartListening, Reset]
                 @ snd (vad_loop E (initial_session (start_clock sc)) (ticks sc))
                 @ [StopListening]))
       \<and> (\<not> (\<exists>tk \<in> set (ticks sc). current_time tk - start_clock sc > (if fu then 4 else 8)) \<longrightarrow>
            fst (capture_speech_with_unified_vad sc fu) = StillRunning)
       \<and> Reset \<notin> set (snd (vad_loop E (initial_session (start_clock sc)) (ticks sc)))
       \<and> GetFinalText \<notin> set (snd (vad_loop E (initial_session (start_clock sc)) (ticks sc)))"
proof -
  let ?st0 = "initial_session (start_clock sc)"
  let ?l = "vad_loop E ?st0 (ticks sc)"
  let ?late = "\<exists>tk \<in> set (ticks sc). current_time tk - start_clock sc > (if fu then 4 else 8)"
  have it: "initial_timeout E = (if fu then 4 else 8)"
    using assms(6) by (simp add: timed_env_def initial_timeout_of_def)
  have step: "\<not> voice_started st \<and> manual_stop tk = Inr False
            \<and> current_time tk - overall_start_time st > initial_timeout E
          \<longrightarrow> vad_step E st tk = (ReturnNone InitialTimeout, [])"
    by (simp add: vad_step_timed_out timed_out_def)
  have nv: "\<not> voice_started ?st0" and os: "overall_start_time ?st0 = start_clock sc"
    by (simp_all add: initial_session_def)
  note q = quiet_loop [OF nv assms(7), unfolded os it]
  have l: "vad_loop (timed_env p fu n (audio_frame_length sc)) ?st0 (ticks sc) = (fst ?l, snd ?l)"
    using assms(6) by simp
  note c = capture_timed_started [OF assms(1-5) l refl]
  have late: "?late \<longrightarrow> fst ?l = ReturnNone InitialTimeout
      \<and> capture_speech_with_unified_vad sc fu =
          (Returns None,
           [UpdateDisplay ''listening'' (if \<not> fu then ''curious'' else ''attentive''),
            InitializeInput, StartListening, Reset] @ snd ?l @ [StopListening])"
  proof
    assume ?late
    with q have "fst ?l = ReturnNone InitialTimeout" by simp
    with c show "fst ?l = ReturnNone InitialTimeout
      \<and> capture_speech_with_unified_vad sc fu =
          (Returns None,
           [UpdateDisplay ''listening'' (if \<not> fu then ''curious'' else ''attentive''),
            InitializeInput, StartListening, Reset] @ snd ?l @ [StopListening])"
      by simp
  qed
  have early: "\<not> ?late \<longrightarrow> fst (capture_speech_with_unified_vad sc fu) = StillRunning"
  proof
    assume "\<not> ?late"
    with q obtain st' where "fst ?l = Continue st'" by auto
    with c show "fst (capture_speech_with_unified_vad sc fu) = StillRunning" by simp
  qed
  from it step late early q show ?thesis by blast
qed

lemma waiting_example:
  "\<forall>v \<in> set (vad_visits (timed_env example_params False 48000 1) (initial_session 0)
                  [frame_tick 1 quiet_frame, idle_tick 9]).
      quiet_pass (timed_env example_params False 48000 1) v"
  "vad_loop (timed_env example_params False 48000 1) (initial_session 0)
      [frame_tick 1 quiet_frame, idle_tick 9]
    = (ReturnNone InitialTimeout, [ProcessFrame quiet_frame])"
  "vad_step (timed_env example_params False 48000 1) ((initial_session 0)\<lparr>frame_history := [0]\<rparr>)
      (idle_tick 9) = (ReturnNone InitialTimeout, [])"
  "vad_loop (timed_env example_params False 48000 1) (initial_session 0) [frame_tick 1 quiet_frame]
    = (Continue ((initial_session 0)\<lparr>frame_history := [0]\<rparr>), [ProcessFrame quiet_frame])"
  by (simp_all add: run_eval)

theorem initial_timeout_returns_none_witness:
  "quiet_pass (timed_env example_params False 48000 1) (initial_session 0, frame_tick 1 quiet_frame)
   \<and> quiet_pass (timed_env example_params False 48000 1)
        ((initial_session 0)\<lparr>frame_history := [0]\<rparr>, idle_tick 9)
   \<and> current_time (idle_tick 9) - 0 > (8::real)
   \<and> capture_speech_with_unified_vad
        (example_scenario [frame_tick 1 quiet_frame, idle_tick 9] ''hello'') False
      = (Returns None,
         [UpdateDisplay ''listening'' ''curious'', InitializeInput, StartListening, Reset,
          ProcessFrame quiet_frame, StopListening])"
proof -
  let ?sc = "example_scenario [frame_tick 1 quiet_frame, idle_tick 9] ''hello''"
  let ?E = "timed_env example_params False 48000 (audio_frame_length ?sc)"
  have q: "\<forall>v \<in> set (vad_visits ?E (initial_session (start_clock ?sc)) (ticks ?sc)). quiet_pass ?E v"
    using waiting_example(1) by (simp add: example_setup)
  have late: "\<exists>tk \<in> set (ticks ?sc). current_time tk - start_clock ?sc > (if False then 4 else 8)"
    by (simp add: example_setup idle_tick_def frame_tick_def)
  have passes: "quiet_pass (timed_env example_params False 48000 1)
        (initial_session 0, frame_tick 1 quiet_frame)
      \<and> quiet_pass (timed_env example_params False 48000 1)
        ((initial_session 0)\<lparr>frame_history := [0]\<rparr>, idle_tick 9)
      \<and> current_time (idle_tick 9) - 0 > (8::real)"
    by (simp add: run_eval)
  from initial_timeout_returns_none [OF example_setup(1,2,3,4,5) refl q] late
  have "capture_speech_with_unified_vad ?sc False =
          (Returns None,
           [UpdateDisplay ''listening'' (if \<not> False then ''curious'' else ''attentive''),
            InitializeInput, StartListening, Reset]
           @ snd (vad_loop ?E (initial_session (start_clock ?sc)) (ticks ?sc)) @ [StopListening])"
    by blast
  then have "capture_speech_with_unified_vad ?sc False
      = (Returns None,
         [UpdateDisplay ''listening'' ''curious'', InitializeInput, StartListening, Reset,
          ProcessFrame quiet_frame, StopListening])"
    by (simp add: example_setup waiting_example(2))
  with passes show ?thesis by blast
qed

text \<open>
  A quiet frame is given to the recognizer at time 1 and the initial timeout is met at
  time 9: the call returns \<open>None\<close> with no \<open>reset\<close> after the one of the session start, so
  the recognizer keeps the state that the frame left.
\<close>

theorem initial_timeout_without_reset_counterexample:
  "vad_loop (timed_env example_params False 48000 1) (initial_session 0) [frame_tick 1 quiet_frame]
     = (Continue ((initial_session 0)\<lparr>frame_history := [0]\<rparr>), [ProcessFrame quiet_frame])
   \<and> vad_step (timed_env example_params False 48000 1) ((initial_session 0)\<lparr>frame_history := [0]\<rparr>)
       (idle_tick 9) = (ReturnNone InitialTimeout, [])
   \<and> capture_speech_with_unified_vad
        (example_scenario [frame_tick 1 quiet_frame, idle_tick 9] ''hello'') False
      = (Returns None,
         [UpdateDisplay ''listening'' ''curious'', InitializeInput, StartListening, Reset,
          ProcessFrame quiet_frame, StopListening])
   \<and> Reset \<notin> set (drop 4 (snd (capture_speech_with_unified_vad
        (example_scenario [frame_tick 1 quiet_frame, idle_tick 9] ''hello'') False)))"
proof -
  let ?sc = "example_scenario [frame_tick 1 quiet_frame, idle_tick 9] ''hello''"
  have "vad_loop (timed_env example_params False 48000 (audio_frame_length ?sc))
          (initial_session (start_clock ?sc)) (ticks ?sc)
        = (ReturnNone InitialTimeout, [ProcessFrame quiet_frame])"
    by (simp add: example_setup waiting_example(2))
  from capture_timed_started [OF example_setup(1,2,3,4,5) this refl]
  have "capture_speech_with_unified_vad ?sc False
      = (Returns None,
         [UpdateDisplay ''listening'' ''curious'', InitializeInput, StartListening, Reset,
          ProcessFrame quiet_frame, StopListening])"
    by simp
  with waiting_example(3,4) show ?thesis by simp
qed

section \<open>The manual stop\<close>




end
